theory Spec2Isabelle
  imports Complex_Main
begin

section \<open>Machine integers and failures\<close>

text \<open>
  The C++ type \<open>int\<close> is a 32-bit two's complement integer. Values are modelled as
  \<open>int\<close>, and every \<open>+\<close>, \<open>-\<close> and \<open>*\<close> of the source is followed by the
  wrap-around into the 32-bit range that the generated machine code performs (the C++
  standard leaves signed overflow undefined). Integer division truncates towards zero;
  division by zero and \<open>INT_MIN / -1\<close> trap. A loop counter stays below its bound,
  itself an \<open>int\<close>, so its increment cannot overflow and is written without the
  wrap-around.
\<close>

definition INT_MAX :: int where
  "INT_MAX = 2147483647"

definition INT_MIN :: int where
  "INT_MIN = - 2147483648"

definition wrap32 :: "int \<Rightarrow> int" where
  "wrap32 k = (k + 2147483648) mod 4294967296 - 2147483648"

definition add32 :: "int \<Rightarrow> int \<Rightarrow> int" where
  "add32 a b = wrap32 (a + b)"

definition sub32 :: "int \<Rightarrow> int \<Rightarrow> int" where
  "sub32 a b = wrap32 (a - b)"

definition mul32 :: "int \<Rightarrow> int \<Rightarrow> int" where
  "mul32 a b = wrap32 (a * b)"

text \<open>
  What can go wrong at run time: the two integer division traps, a vector or matrix
  requested with a negative extent (refused by the R allocator that Rcpp calls), an
  unchecked element access outside the storage, and the conversion to \<open>int\<close> of a
  \<open>double\<close> that is infinite, NaN or outside the range of \<open>int\<close> (undefined, and
  different from one processor to the next).
\<close>

datatype error =
    DivisionByZero
  | DivisionOverflow
  | NegativeLength
  | OutOfBounds
  | ConversionUndefined

definition and_then :: "error + 'a \<Rightarrow> ('a \<Rightarrow> error + 'b) \<Rightarrow> error + 'b" where
  "and_then r f = (case r of Inl e \<Rightarrow> Inl e | Inr v \<Rightarrow> f v)"

definition trunc_div :: "int \<Rightarrow> int \<Rightarrow> int" where
  "trunc_div a b = sgn a * sgn b * (\<bar>a\<bar> div \<bar>b\<bar>)"

definition div32 :: "int \<Rightarrow> int \<Rightarrow> error + int" where
  "div32 a b =
     (if b = 0 then Inl DivisionByZero
      else if a = INT_MIN \<and> b = - 1 then Inl DivisionOverflow
      else Inr (trunc_div a b))"

section \<open>Chunk size planner\<close>

text \<open>
  A finite \<open>double\<close> is modelled by the real number it denotes; rounding of the
  products and of the quotient is not modelled. \<open>std::floor\<close> is the floor function,
  and \<open>static_cast<int>\<close> truncates towards zero and is defined only when the truncated
  value is an \<open>int\<close>.
\<close>

definition std_floor :: "real \<Rightarrow> real" where
  "std_floor v = real_of_int \<lfloor>v\<rfloor>"

definition static_cast_int :: "real \<Rightarrow> error + int" where
  "static_cast_int v =
     (let t = (if 0 \<le> v then \<lfloor>v\<rfloor> else \<lceil>v\<rceil>)
      in if INT_MIN \<le> t \<and> t \<le> INT_MAX then Inr t else Inl ConversionUndefined)"

text \<open>The two clamps of \<open>calculate_optimal_chunk_size\<close>, in the order of the source.\<close>

definition ensure_minimum :: "int \<Rightarrow> int" where
  "ensure_minimum chunk_size = (if chunk_size < 1 then 1 else chunk_size)"

definition cap_at_total_rows :: "int \<Rightarrow> int \<Rightarrow> int" where
  "cap_at_total_rows total_rows chunk_size =
     (if chunk_size > total_rows then total_rows else chunk_size)"

text \<open>
  The value converted to \<open>int\<close> before the clamps. With \<open>data_size_mb = 0\<close> the
  quotient is an infinity or NaN, and its conversion is undefined.
\<close>

definition raw_chunk_size :: "real \<Rightarrow> int \<Rightarrow> real \<Rightarrow> real \<Rightarrow> error + int" where
  "raw_chunk_size data_size_mb total_rows max_ram_mb target_fraction =
     (let target_chunk_ram = max_ram_mb * target_fraction
      in if data_size_mb = 0 then Inl ConversionUndefined
         else static_cast_int
                (std_floor (real_of_int total_rows * target_chunk_ram / data_size_mb)))"

definition calculate_optimal_chunk_size :: "real \<Rightarrow> int \<Rightarrow> real \<Rightarrow> real \<Rightarrow> error + int" where
  "calculate_optimal_chunk_size data_size_mb total_rows max_ram_mb target_fraction =
     and_then (raw_chunk_size data_size_mb total_rows max_ram_mb target_fraction)
       (\<lambda>chunk_size. Inr (cap_at_total_rows total_rows (ensure_minimum chunk_size)))"

section \<open>Vector chunker\<close>

text \<open>
  A \<open>NumericVector\<close> is an array of \<open>double\<close>; the chunker only copies elements,
  so they are modelled as reals. \<open>NumericVector chunk(len)\<close> allocates \<open>len\<close> zeros
  and \<open>List result(k)\<close> allocates \<open>k\<close> empty slots (R's \<open>NULL\<close>, here \<open>None\<close>);
  both fail for a negative extent. \<open>operator[]\<close> does not check its index.
\<close>

definition new_numeric_vector :: "int \<Rightarrow> error + real list" where
  "new_numeric_vector len =
     (if len < 0 then Inl NegativeLength else Inr (replicate (nat len) 0))"

definition new_list :: "int \<Rightarrow> error + 'a option list" where
  "new_list len =
     (if len < 0 then Inl NegativeLength else Inr (replicate (nat len) None))"

definition read_at :: "'a list \<Rightarrow> int \<Rightarrow> error + 'a" where
  "read_at xs i =
     (if 0 \<le> i \<and> i < int (length xs) then Inr (xs ! nat i) else Inl OutOfBounds)"

definition write_at :: "'a list \<Rightarrow> int \<Rightarrow> 'a \<Rightarrow> error + 'a list" where
  "write_at xs i v =
     (if 0 \<le> i \<and> i < int (length xs) then Inr (xs[nat i := v]) else Inl OutOfBounds)"

text \<open>
  The inner loop \<open>for (int j = 0; j < chunk_len; j++) chunk[j] = x[start + j]\<close>.
\<close>

function copy_elements ::
  "real list \<Rightarrow> int \<Rightarrow> int \<Rightarrow> int \<Rightarrow> real list \<Rightarrow> error + real list" where
  "copy_elements x start chunk_len j chunk =
     (if j < chunk_len then
        and_then (read_at x (add32 start j)) (\<lambda>v.
        and_then (write_at chunk j v) (\<lambda>chunk'.
          copy_elements x start chunk_len (j + 1) chunk'))
      else Inr chunk)"
  by pat_completeness auto
termination
  by (relation "measure (\<lambda>(x, start, chunk_len, j, chunk). nat (chunk_len - j))") auto

text \<open>The outer loop \<open>for (int i = 0; i < num_chunks; i++)\<close> with its body.\<close>

function fill_vector_chunks ::
  "real list \<Rightarrow> int \<Rightarrow> int \<Rightarrow> int \<Rightarrow> int \<Rightarrow> real list option list
     \<Rightarrow> error + real list option list" where
  "fill_vector_chunks x n chunk_size num_chunks i result =
     (if i < num_chunks then
        (let start = mul32 i chunk_size;
             end = min (add32 start chunk_size) n;
             chunk_len = sub32 end start
         in and_then (new_numeric_vector chunk_len) (\<lambda>chunk0.
            and_then (copy_elements x start chunk_len 0 chunk0) (\<lambda>chunk.
            and_then (write_at result i (Some chunk)) (\<lambda>result'.
              fill_vector_chunks x n chunk_size num_chunks (i + 1) result'))))
      else Inr result)"
  by pat_completeness auto
termination
  by (relation "measure (\<lambda>(x, n, chunk_size, num_chunks, i, result). nat (num_chunks - i))")
    auto

definition split_vector_chunks :: "real list \<Rightarrow> int \<Rightarrow> error + real list option list" where
  "split_vector_chunks x chunk_size =
     (let n = wrap32 (int (length x))
      in and_then (div32 (sub32 (add32 n chunk_size) 1) chunk_size) (\<lambda>num_chunks.
         and_then (new_list num_chunks) (\<lambda>result.
           fill_vector_chunks x n chunk_size num_chunks 0 result)))"

section \<open>Matrix chunker\<close>

text \<open>
  A \<open>NumericMatrix\<close> is a \<open>double\<close> array in column-major order together with its
  extents; element \<open>(i, j)\<close> sits at offset \<open>i + nrow * j\<close>, computed in 64 bits and
  not checked against the extents. \<open>NumericMatrix chunk(rows, cols)\<close> allocates
  \<open>rows * cols\<close> zeros and fails for a negative extent.
\<close>

record numeric_matrix =
  nrow :: int
  ncol :: int
  cells :: "real list"

definition new_numeric_matrix :: "int \<Rightarrow> int \<Rightarrow> error + numeric_matrix" where
  "new_numeric_matrix rows cols =
     (if rows < 0 \<or> cols < 0 then Inl NegativeLength
      else Inr \<lparr>nrow = rows, ncol = cols, cells = replicate (nat (rows * cols)) 0\<rparr>)"

definition matrix_read :: "numeric_matrix \<Rightarrow> int \<Rightarrow> int \<Rightarrow> error + real" where
  "matrix_read m i j = read_at (cells m) (i + nrow m * j)"

definition matrix_write :: "numeric_matrix \<Rightarrow> int \<Rightarrow> int \<Rightarrow> real \<Rightarrow> error + numeric_matrix" where
  "matrix_write m i j v =
     and_then (write_at (cells m) (i + nrow m * j) v) (\<lambda>cells'. Inr (m\<lparr>cells := cells'\<rparr>))"

text \<open>The loop over the columns, \<open>chunk(r, c) = mat(start + r, c)\<close>, for one row.\<close>

function copy_columns ::
  "numeric_matrix \<Rightarrow> int \<Rightarrow> int \<Rightarrow> int \<Rightarrow> int \<Rightarrow> numeric_matrix \<Rightarrow> error + numeric_matrix" where
  "copy_columns mat start ncols r c chunk =
     (if c < ncols then
        and_then (matrix_read mat (add32 start r) c) (\<lambda>v.
        and_then (matrix_write chunk r c v) (\<lambda>chunk'.
          copy_columns mat start ncols r (c + 1) chunk'))
      else Inr chunk)"
  by pat_completeness auto
termination
  by (relation "measure (\<lambda>(mat, start, ncols, r, c, chunk). nat (ncols - c))") auto

text \<open>The loop over the rows of one chunk.\<close>

function copy_rows ::
  "numeric_matrix \<Rightarrow> int \<Rightarrow> int \<Rightarrow> int \<Rightarrow> int \<Rightarrow> numeric_matrix \<Rightarrow> error + numeric_matrix" where
  "copy_rows mat start chunk_rows ncols r chunk =
     (if r < chunk_rows then
        and_then (copy_columns mat start ncols r 0 chunk) (\<lambda>chunk'.
          copy_rows mat start chunk_rows ncols (r + 1) chunk')
      else Inr chunk)"
  by pat_completeness auto
termination
  by (relation "measure (\<lambda>(mat, start, chunk_rows, ncols, r, chunk). nat (chunk_rows - r))")
    auto

text \<open>The loop over the chunks.\<close>

function fill_matrix_chunks ::
  "numeric_matrix \<Rightarrow> int \<Rightarrow> int \<Rightarrow> int \<Rightarrow> int \<Rightarrow> int \<Rightarrow> numeric_matrix option list
     \<Rightarrow> error + numeric_matrix option list" where
  "fill_matrix_chunks mat nrows ncols chunk_size num_chunks i result =
     (if i < num_chunks then
        (let start = mul32 i chunk_size;
             end = min (add32 start chunk_size) nrows;
             chunk_rows = sub32 end start
         in and_then (new_numeric_matrix chunk_rows ncols) (\<lambda>chunk0.
            and_then (copy_rows mat start chunk_rows ncols 0 chunk0) (\<lambda>chunk.
            and_then (write_at result i (Some chunk)) (\<lambda>result'.
              fill_matrix_chunks mat nrows ncols chunk_size num_chunks (i + 1) result'))))
      else Inr result)"
  by pat_completeness auto
termination
  by (relation
      "measure (\<lambda>(mat, nrows, ncols, chunk_size, num_chunks, i, result). nat (num_chunks - i))")
    auto

definition split_matrix_chunks ::
  "numeric_matrix \<Rightarrow> int \<Rightarrow> error + numeric_matrix option list" where
  "split_matrix_chunks mat chunk_size =
     (let nrows = nrow mat;
          ncols = ncol mat
      in and_then (div32 (sub32 (add32 nrows chunk_size) 1) chunk_size) (\<lambda>num_chunks.
         and_then (new_list num_chunks) (\<lambda>result.
           fill_matrix_chunks mat nrows ncols chunk_size num_chunks 0 result)))"

section \<open>Process memory reader and threshold monitor\<close>

text \<open>
  What \<open>get_ram_usage_cpp\<close> obtains from the operating system is an input of the
  model: the \<open>PrivateUsage\<close> counter in bytes when \<open>GetProcessMemoryInfo\<close> succeeds,
  the lines of \<open>/proc/self/status\<close> when that file can be opened, and the
  \<open>ru_maxrss\<close> field filled in by \<open>getrusage\<close>. The platform stands for the
  conditional compilation. The stream extraction \<open>iss >> rss_kb\<close> belongs to the C++
  library and is a parameter.
\<close>

datatype platform = Windows | Apple | Linux

record os_memory =
  private_usage :: "nat option"
  proc_self_status :: "string list option"
  ru_maxrss :: int

fun scan_status :: "(string \<Rightarrow> real) \<Rightarrow> string list \<Rightarrow> real" where
  "scan_status extract [] = 0"
| "scan_status extract (line # rest) =
     (if take 6 line = ''VmRSS:'' then extract (drop 6 line) / 1024
      else scan_status extract rest)"

definition get_ram_usage_cpp :: "platform \<Rightarrow> (string \<Rightarrow> real) \<Rightarrow> os_memory \<Rightarrow> real" where
  "get_ram_usage_cpp pf extract os =
     (if pf = Windows then
        (case private_usage os of
           Some virtualMemUsed \<Rightarrow> real virtualMemUsed / (1024 * 1024)
         | None \<Rightarrow> 0)
      else
        (case proc_self_status os of
           None \<Rightarrow>
             (if pf = Apple then real_of_int (ru_maxrss os) / (1024 * 1024)
              else real_of_int (ru_maxrss os) / 1024)
         | Some lines \<Rightarrow> scan_status extract lines))"

definition ram_threshold_exceeded ::
  "platform \<Rightarrow> (string \<Rightarrow> real) \<Rightarrow> os_memory \<Rightarrow> real \<Rightarrow> bool" where
  "ram_threshold_exceeded pf extract os max_ram_mb =
     (let current_ram = get_ram_usage_cpp pf extract os in current_ram > max_ram_mb)"

section \<open>Reference partition\<close>

text \<open>
  The partition the chunkers are meant to produce, written directly: chunk \<open>k\<close> holds
  the \<open>c\<close> elements from position \<open>k * c\<close> on, or as many as are left.
\<close>

definition spec_chunks :: "nat \<Rightarrow> 'a list \<Rightarrow> 'a list list" where
  "spec_chunks c x = map (\<lambda>k. take c (drop (k * c) x)) [0..<(length x + c - 1) div c]"

text \<open>
  For matrices the same partition is taken over the rows. \<open>matrix_rows\<close> reads a
  matrix row by row through the column-major offsets, and \<open>row_block mat s l\<close> is the
  full-width matrix made of the \<open>l\<close> rows of \<open>mat\<close> from row \<open>s\<close> on.
\<close>

definition matrix_rows :: "numeric_matrix \<Rightarrow> real list list" where
  "matrix_rows m =
     map (\<lambda>i. map (\<lambda>j. cells m ! (i + nat (nrow m) * j)) [0..<nat (ncol m)])
       [0..<nat (nrow m)]"

definition row_block :: "numeric_matrix \<Rightarrow> nat \<Rightarrow> nat \<Rightarrow> numeric_matrix" where
  "row_block mat s l =
     \<lparr>nrow = int l, ncol = ncol mat,
      cells = map (\<lambda>k. cells mat ! (s + k mod l + nat (nrow mat) * (k div l)))
                [0..<l * nat (ncol mat)]\<rparr>"

definition spec_row_blocks :: "nat \<Rightarrow> numeric_matrix \<Rightarrow> numeric_matrix list" where
  "spec_row_blocks c mat =
     map (\<lambda>k. row_block mat (k * c) (min c (nat (nrow mat) - k * c)))
       [0..<(nat (nrow mat) + c - 1) div c]"

declare copy_elements.simps [simp del]
declare fill_vector_chunks.simps [simp del]
declare copy_columns.simps [simp del]
declare copy_rows.simps [simp del]
declare fill_matrix_chunks.simps [simp del]

section \<open>Properties of the machine arithmetic\<close>

lemma wrap32_id: "INT_MIN \<le> k \<Longrightarrow> k \<le> INT_MAX \<Longrightarrow> wrap32 k = k"
  by (simp add: wrap32_def INT_MIN_def INT_MAX_def)

lemma wrap32_nat: "int k \<le> INT_MAX \<Longrightarrow> wrap32 (int k) = int k"
  by (rule wrap32_id) (simp_all add: INT_MIN_def)

lemma wrap32_wrap32_diff: "wrap32 (wrap32 a - b) = wrap32 (a - b)"
proof -
  have "wrap32 a - b + 2147483648 = (a + 2147483648) mod 4294967296 - b"
    by (simp add: wrap32_def)
  also have "\<dots> mod 4294967296 = (a + 2147483648 - b) mod 4294967296"
    by (simp add: mod_diff_left_eq)
  also have "a + 2147483648 - b = a - b + 2147483648"
    by simp
  finally show ?thesis
    by (simp add: wrap32_def)
qed

lemma trunc_div_nonneg: "0 \<le> a \<Longrightarrow> 0 < b \<Longrightarrow> trunc_div a b = a div b"
  by (cases "a = 0") (simp_all add: trunc_div_def)

section \<open>Properties of the chunk size planner\<close>

lemma static_cast_int_std_floor:
  "static_cast_int (std_floor v) =
     (if INT_MIN \<le> \<lfloor>v\<rfloor> \<and> \<lfloor>v\<rfloor> \<le> INT_MAX then Inr \<lfloor>v\<rfloor> else Inl ConversionUndefined)"
  by (auto simp: static_cast_int_def std_floor_def Let_def)

lemma raw_chunk_size_eq:
  "raw_chunk_size d n m f =
     (if d = 0 then Inl ConversionUndefined
      else if INT_MIN \<le> \<lfloor>real_of_int n * (m * f) / d\<rfloor>
            \<and> \<lfloor>real_of_int n * (m * f) / d\<rfloor> \<le> INT_MAX
      then Inr \<lfloor>real_of_int n * (m * f) / d\<rfloor>
      else Inl ConversionUndefined)"
  by (simp add: raw_chunk_size_def static_cast_int_std_floor)

text \<open>The planner in one piece, statement by statement as in the source.\<close>

lemma calculate_optimal_chunk_size_unfolded:
  "calculate_optimal_chunk_size data_size_mb total_rows max_ram_mb target_fraction =
     (let target_chunk_ram = max_ram_mb * target_fraction
      in if data_size_mb = 0 then Inl ConversionUndefined
         else
           case static_cast_int
                  (std_floor (real_of_int total_rows * target_chunk_ram / data_size_mb)) of
             Inl e \<Rightarrow> Inl e
           | Inr chunk_size \<Rightarrow>
               (let chunk_size = (if chunk_size < 1 then 1 else chunk_size);
                    chunk_size = (if chunk_size > total_rows then total_rows else chunk_size)
                in Inr chunk_size))"
  by (auto simp: calculate_optimal_chunk_size_def raw_chunk_size_def and_then_def
      ensure_minimum_def cap_at_total_rows_def Let_def split: sum.splits)

lemma clamps_in_range:
  "1 \<le> n \<Longrightarrow>
   1 \<le> cap_at_total_rows n (ensure_minimum c) \<and> cap_at_total_rows n (ensure_minimum c) \<le> n"
  by (simp add: cap_at_total_rows_def ensure_minimum_def)

lemma clamps_mono:
  "a \<le> b \<Longrightarrow>
   cap_at_total_rows n (ensure_minimum a) \<le> cap_at_total_rows n (ensure_minimum b)"
  by (simp add: cap_at_total_rows_def ensure_minimum_def)

lemma calculate_optimal_chunk_size_Inr:
  "calculate_optimal_chunk_size d n m f = Inr r \<longleftrightarrow>
     d \<noteq> 0 \<and> INT_MIN \<le> \<lfloor>real_of_int n * (m * f) / d\<rfloor>
     \<and> \<lfloor>real_of_int n * (m * f) / d\<rfloor> \<le> INT_MAX
     \<and> r = cap_at_total_rows n (ensure_minimum \<lfloor>real_of_int n * (m * f) / d\<rfloor>)"
  by (auto simp: calculate_optimal_chunk_size_def raw_chunk_size_eq and_then_def)

text \<open>
  Claim C1, as stated, at \<open>total_rows = 0\<close>: the range \<open>[1, total_rows]\<close> is empty
  there, and the planner returns 0.
\<close>

theorem chunk_plan_range_fails_without_rows:
  "(0::int) \<le> 0
   \<and> calculate_optimal_chunk_size 1 0 1 (1 / 10) = Inr 0
   \<and> \<not> (1 \<le> (0::int) \<and> (0::int) \<le> 0)"
  by (simp add: calculate_optimal_chunk_size_Inr INT_MIN_def INT_MAX_def
      ensure_minimum_def cap_at_total_rows_def)

text \<open>
  Claim C1, amended: with at least one row, a non-zero \<open>data_size_mb\<close> and a quotient
  whose floor is an \<open>int\<close>, \<open>calculate_optimal_chunk_size\<close> returns an integer in the
  closed range \<open>[1, total_rows]\<close>.
\<close>

theorem chunk_plan_range:
  assumes "1 \<le> total_rows" and "data_size_mb \<noteq> 0"
    and "INT_MIN \<le> \<lfloor>real_of_int total_rows * (max_ram_mb * target_fraction) / data_size_mb\<rfloor>"
    and "\<lfloor>real_of_int total_rows * (max_ram_mb * target_fraction) / data_size_mb\<rfloor> \<le> INT_MAX"
  shows "\<exists>r. calculate_optimal_chunk_size data_size_mb total_rows max_ram_mb target_fraction
               = Inr r
           \<and> 1 \<le> r \<and> r \<le> total_rows"
  using assms clamps_in_range [of total_rows]
  by (simp add: calculate_optimal_chunk_size_Inr)

theorem chunk_plan_range_witness:
  "\<exists>r. calculate_optimal_chunk_size 1 10 1 (1 / 10) = Inr r \<and> 1 \<le> r \<and> r \<le> 10"
  using chunk_plan_range [of 10 1 1 "1 / 10"]
  by (simp add: INT_MIN_def INT_MAX_def)

text \<open>
  Claim C5, as stated, at \<open>total_rows = 0\<close> and at a negative \<open>data_size_mb\<close>: the
  planner signals nothing and returns a chunk size.
\<close>

theorem degenerate_inputs_accepted:
  "calculate_optimal_chunk_size 4 0 8 (1 / 4) = Inr 0
   \<and> calculate_optimal_chunk_size (- 1) 10 1 (1 / 10) = Inr 1"
  by (simp add: calculate_optimal_chunk_size_Inr INT_MIN_def INT_MAX_def
      ensure_minimum_def cap_at_total_rows_def)

text \<open>
  Claim C5, amended: the planner does not validate its arguments. With
  \<open>total_rows = 0\<close> and a non-zero \<open>data_size_mb\<close> it returns 0. With a negative
  \<open>data_size_mb\<close> it returns the clamped floor of the quotient, as for any other input
  whose floor is an \<open>int\<close>. With \<open>data_size_mb = 0\<close> the quotient is infinite or NaN and
  its conversion to \<open>int\<close> is undefined.
\<close>

theorem degenerate_inputs_not_rejected:
  "(data_size_mb \<noteq> 0 \<longrightarrow>
      calculate_optimal_chunk_size data_size_mb 0 max_ram_mb target_fraction = Inr 0)
   \<and> (data_size_mb < 0
        \<and> INT_MIN \<le> \<lfloor>real_of_int total_rows * (max_ram_mb * target_fraction) / data_size_mb\<rfloor>
        \<and> \<lfloor>real_of_int total_rows * (max_ram_mb * target_fraction) / data_size_mb\<rfloor> \<le> INT_MAX
        \<longrightarrow>
      calculate_optimal_chunk_size data_size_mb total_rows max_ram_mb target_fraction =
        Inr (cap_at_total_rows total_rows (ensure_minimum
              \<lfloor>real_of_int total_rows * (max_ram_mb * target_fraction) / data_size_mb\<rfloor>)))
   \<and> calculate_optimal_chunk_size 0 total_rows max_ram_mb target_fraction
       = Inl ConversionUndefined"
  by (simp add: calculate_optimal_chunk_size_def raw_chunk_size_eq and_then_def
      ensure_minimum_def cap_at_total_rows_def INT_MIN_def INT_MAX_def)

theorem degenerate_inputs_not_rejected_witness:
  "calculate_optimal_chunk_size (- 2) 0 8 (1 / 4) = Inr 0
   \<and> calculate_optimal_chunk_size (- 2) 10 8 (1 / 4) = Inr 1
   \<and> calculate_optimal_chunk_size 0 10 8 (1 / 4) = Inl ConversionUndefined"
  using degenerate_inputs_not_rejected [of "- 2" 8 "1 / 4" 10]
  by (simp add: INT_MIN_def INT_MAX_def ensure_minimum_def cap_at_total_rows_def)

text \<open>
  Where both conversions are defined, a larger \<open>data_size_mb\<close> never gives a larger
  chunk size.
\<close>

lemma planner_antitone_when_defined:
  assumes d: "0 < d1" "d1 \<le> d2"
    and r1: "calculate_optimal_chunk_size d1 n m f = Inr r1"
    and r2: "calculate_optimal_chunk_size d2 n m f = Inr r2"
  shows "r2 \<le> r1"
proof -
  let ?x = "real_of_int n * (m * f)"
  from r1 have e1: "r1 = cap_at_total_rows n (ensure_minimum \<lfloor>?x / d1\<rfloor>)"
    by (simp add: calculate_optimal_chunk_size_Inr)
  from r2 have e2: "r2 = cap_at_total_rows n (ensure_minimum \<lfloor>?x / d2\<rfloor>)"
    by (simp add: calculate_optimal_chunk_size_Inr)
  show ?thesis
  proof (cases "0 \<le> ?x")
    case True
    with d have "?x / d2 \<le> ?x / d1"
      by (simp add: frac_le)
    then have "\<lfloor>?x / d2\<rfloor> \<le> \<lfloor>?x / d1\<rfloor>"
      by (rule floor_mono)
    then show ?thesis
      unfolding e1 e2 by (rule clamps_mono)
  next
    case False
    with d have "?x / d1 < 0" and "?x / d2 < 0"
      by (simp_all add: divide_neg_pos)
    then have "\<lfloor>?x / d1\<rfloor> < 1" and "\<lfloor>?x / d2\<rfloor> < 1"
      by linarith+
    then show ?thesis
      unfolding e1 e2 by (simp add: ensure_minimum_def)
  qed
qed

text \<open>
  Claim C7 at \<open>total_rows = 1000000\<close>, \<open>max_ram_mb = 32000\<close>,
  \<open>target_fraction = 0.1\<close>: with \<open>data_size_mb = 1\<close> the quotient is 3200000000,
  beyond \<open>INT_MAX\<close>, so its conversion to \<open>int\<close> before the clamps is undefined; with
  \<open>data_size_mb = 2\<close> the planner returns all 1000000 rows.
\<close>

theorem planner_conversion_precedes_clamp:
  "calculate_optimal_chunk_size 1 1000000 32000 (1 / 10) = Inl ConversionUndefined
   \<and> calculate_optimal_chunk_size 2 1000000 32000 (1 / 10) = Inr 1000000"
  by (simp add: calculate_optimal_chunk_size_def raw_chunk_size_eq and_then_def
      ensure_minimum_def cap_at_total_rows_def INT_MIN_def INT_MAX_def)

text \<open>
  Claim C9: for \<open>data_size_mb = 1000\<close>, \<open>total_rows = 100000\<close>, \<open>max_ram_mb = 500\<close>
  and \<open>target_fraction = 0.1\<close> the planner returns exactly 5000, which is
  \<open>floor (100000 * 50 / 1000)\<close> with \<open>target_chunk_ram = 500 * 0.1 = 50\<close>.
\<close>

theorem planner_scenario_5000:
  "calculate_optimal_chunk_size 1000 100000 500 (1 / 10) = Inr 5000
   \<and> raw_chunk_size 1000 100000 500 (1 / 10) = Inr \<lfloor>100000 * 50 / (1000::real)\<rfloor>
   \<and> 500 * (1 / 10) = (50::real)"
  by (simp add: calculate_optimal_chunk_size_def raw_chunk_size_eq and_then_def
      ensure_minimum_def cap_at_total_rows_def INT_MIN_def INT_MAX_def)

text \<open>
  Claim C10: with \<open>total_rows = 0\<close> and a positive \<open>data_size_mb\<close> the planner returns
  0 and signals no error: the converted value is 0, the lower clamp raises it to 1, and
  the upper clamp, applied afterwards, caps it back to \<open>total_rows = 0\<close>.
\<close>

theorem zero_rows_gives_zero:
  assumes "0 < data_size_mb"
  shows "raw_chunk_size data_size_mb 0 max_ram_mb target_fraction = Inr 0
       \<and> ensure_minimum 0 = 1
       \<and> cap_at_total_rows 0 1 = 0
       \<and> calculate_optimal_chunk_size data_size_mb 0 max_ram_mb target_fraction = Inr 0"
  using assms
  by (simp add: calculate_optimal_chunk_size_def raw_chunk_size_eq and_then_def
      ensure_minimum_def cap_at_total_rows_def INT_MIN_def INT_MAX_def)

theorem zero_rows_gives_zero_witness:
  "(0::real) < 5
   \<and> raw_chunk_size 5 0 100 (1 / 2) = Inr 0
   \<and> calculate_optimal_chunk_size 5 0 100 (1 / 2) = Inr 0"
  using zero_rows_gives_zero [of 5 100 "1 / 2"] by simp

section \<open>Properties of the threshold monitor\<close>

text \<open>
  Claim C8: \<open>ram_threshold_exceeded\<close> is true exactly when the reading that
  \<open>get_ram_usage_cpp\<close> obtains, from the same operating system state, is strictly
  greater than \<open>max_ram_mb\<close>.
\<close>

theorem ram_threshold_exceeded_iff:
  "ram_threshold_exceeded pf extract os max_ram_mb
     = (get_ram_usage_cpp pf extract os > max_ram_mb)"
  by (simp add: ram_threshold_exceeded_def)

text \<open>A reading of 100 MB exceeds a ceiling of 50 MB, a reading of 40 MB does not.\<close>

lemma ram_threshold_examples:
  "ram_threshold_exceeded Linux extract
     \<lparr>private_usage = None, proc_self_status = None, ru_maxrss = 102400\<rparr> 50"
  "\<not> ram_threshold_exceeded Linux extract
     \<lparr>private_usage = None, proc_self_status = None, ru_maxrss = 40960\<rparr> 50"
  by (simp_all add: ram_threshold_exceeded_def get_ram_usage_cpp_def)

section \<open>Properties of the vector chunker\<close>

text \<open>
  The loops are followed on natural numbers: as long as \<open>n + chunk_size - 1\<close> does
  not exceed \<open>INT_MAX\<close>, no operation of the chunker wraps around. The inner loop,
  entered at \<open>j\<close>, keeps the first \<open>j\<close> elements of the chunk and fills the rest
  from \<open>x\<close>.
\<close>

lemma copy_elements_nat:
  assumes "s + l \<le> length x" and "int (length x) \<le> INT_MAX"
  shows "length chunk = l \<Longrightarrow> j \<le> l \<Longrightarrow>
         copy_elements x (int s) (int l) (int j) chunk
           = Inr (take j chunk @ take (l - j) (drop (s + j) x))"
proof (induction "l - j" arbitrary: j chunk)
  case 0
  then show ?case
    by (subst copy_elements.simps) simp
next
  case (Suc d)
  then have jl: "j < l" by simp
  with assms have idx: "s + j < length x" by simp
  with assms have "int (s + j) \<le> INT_MAX" by simp
  then have "wrap32 (int (s + j)) = int (s + j)"
    by (rule wrap32_nat)
  then have a: "add32 (int s) (int j) = int (s + j)"
    by (simp add: add32_def)
  let ?chunk' = "chunk[j := x ! (s + j)]"
  have step: "copy_elements x (int s) (int l) (int j) chunk
      = copy_elements x (int s) (int l) (int (Suc j)) ?chunk'"
    using jl idx Suc.prems
    by (subst copy_elements.simps)
      (simp add: a read_at_def write_at_def and_then_def add.commute nat_int_add)
  have ih: "copy_elements x (int s) (int l) (int (Suc j)) ?chunk'
      = Inr (take (Suc j) ?chunk' @ take (l - Suc j) (drop (s + Suc j) x))"
    using Suc.hyps Suc.prems jl by (intro Suc.hyps(1)) simp_all
  have t1: "take (Suc j) ?chunk' = take j chunk @ [x ! (s + j)]"
    using jl Suc.prems by (simp add: take_Suc_conv_app_nth)
  have t2: "take (l - j) (drop (s + j) x) = x ! (s + j) # take (l - Suc j) (drop (s + Suc j) x)"
  proof -
    have "drop (s + j) x = x ! (s + j) # drop (Suc (s + j)) x"
      using idx by (simp add: Cons_nth_drop_Suc)
    moreover have "l - j = Suc (l - Suc j)"
      using jl by simp
    ultimately show ?thesis by simp
  qed
  show ?case
    unfolding step ih t1 t2 by simp
qed

text \<open>Every chunk but the last is followed by at least one more element.\<close>

lemma chunk_start_in_range:
  fixes c n i :: nat
  assumes "0 < c" and "i < (n + c - 1) div c"
  shows "i * c < n"
proof -
  have "Suc i * c \<le> ((n + c - 1) div c) * c"
    using assms(2) by (intro mult_le_mono1) simp
  also have "\<dots> \<le> n + c - 1"
    by simp
  finally show ?thesis
    using assms(1) by simp
qed

lemma take_min_length: "take (min c (length ys)) ys = take c ys"
  by (simp add: min_def)

text \<open>
  The outer loop, entered at \<open>i\<close>, keeps the first \<open>i\<close> slots of the result and
  stores chunk \<open>k\<close> of the reference partition in every later slot \<open>k\<close>.
\<close>

lemma fill_vector_chunks_nat:
  assumes c: "0 < c" and bound: "int (length x) + int c - 1 \<le> INT_MAX"
    and num: "num = (length x + c - 1) div c"
  shows "length result = num \<Longrightarrow> i \<le> num \<Longrightarrow>
         fill_vector_chunks x (int (length x)) (int c) (int num) (int i) result
           = Inr (take i result @ map (\<lambda>k. Some (take c (drop (k * c) x))) [i..<num])"
proof (induction "num - i" arbitrary: i result)
  case 0
  then show ?case
    by (subst fill_vector_chunks.simps) simp
next
  case (Suc d)
  then have i: "i < num" by simp
  define s where "s = i * c"
  define l where "l = min c (length x - s)"
  define chunk where "chunk = take c (drop s x)"
  have s: "s < length x"
    using c num i by (simp add: s_def chunk_start_in_range)
  have s_int: "int i * int c = int s"
    by (simp add: s_def)
  have x_max: "int (length x) \<le> INT_MAX"
    using bound c by simp
  have "wrap32 (int s) = int s"
    using s x_max by (intro wrap32_nat) simp
  then have start: "mul32 (int i) (int c) = int s"
    by (simp add: mul32_def s_int)
  have "wrap32 (int (s + c)) = int (s + c)"
    using s bound by (intro wrap32_nat) simp
  then have sum: "add32 (int s) (int c) = int (s + c)"
    by (simp add: add32_def)
  have "wrap32 (int l) = int l"
    using x_max by (intro wrap32_nat) (simp add: l_def)
  moreover have "min (int (s + c)) (int (length x)) - int s = int l"
    using s unfolding l_def min_def by (auto simp: of_nat_diff)
  ultimately have len: "sub32 (min (int (s + c)) (int (length x))) (int s) = int l"
    by (simp add: sub32_def)
  have alloc: "new_numeric_vector (int l) = Inr (replicate l 0)"
    by (simp add: new_numeric_vector_def)
  have "s + l \<le> length x"
    using s by (simp add: l_def)
  then have "copy_elements x (int s) (int l) (int 0) (replicate l 0)
      = Inr (take 0 (replicate l 0) @ take (l - 0) (drop (s + 0) x))"
    using x_max by (intro copy_elements_nat) simp_all
  moreover have "take l (drop s x) = chunk"
    unfolding l_def chunk_def using take_min_length [of c "drop s x"] by simp
  ultimately have copy: "copy_elements x (int s) (int l) 0 (replicate l 0) = Inr chunk"
    by simp
  have store: "write_at result (int i) (Some chunk) = Inr (result[i := Some chunk])"
    using i Suc.prems by (simp add: write_at_def)
  have step: "fill_vector_chunks x (int (length x)) (int c) (int num) (int i) result
      = fill_vector_chunks x (int (length x)) (int c) (int num) (int i + 1)
          (result[i := Some chunk])"
    using i
    by (subst fill_vector_chunks.simps)
      (simp add: start sum len alloc copy store and_then_def Let_def del: of_nat_add)
  have suc: "int i + 1 = int (Suc i)"
    by simp
  have ih: "fill_vector_chunks x (int (length x)) (int c) (int num) (int (Suc i))
          (result[i := Some chunk])
      = Inr (take (Suc i) (result[i := Some chunk])
             @ map (\<lambda>k. Some (take c (drop (k * c) x))) [Suc i..<num])"
    using Suc.hyps Suc.prems i by (intro Suc.hyps(1)) simp_all
  have t1: "take (Suc i) (result[i := Some chunk]) = take i result @ [Some chunk]"
    using i Suc.prems by (simp add: take_Suc_conv_app_nth)
  have t2: "[i..<num] = i # [Suc i..<num]"
    using i by (simp add: upt_conv_Cons)
  show ?case
    unfolding step suc ih t1 t2 by (simp add: chunk_def s_def)
qed

lemma concat_chunks_take:
  "concat (map (\<lambda>k. take c (drop (k * c) x)) [0..<m]) = take (m * c) x"
proof (induction m)
  case 0
  then show ?case by simp
next
  case (Suc m)
  have "take (m * c) x @ take c (drop (m * c) x) = take (m * c + c) x"
    by (simp add: take_add)
  with Suc show ?case
    by (simp add: add.commute)
qed

lemma split_vector_chunks_nat:
  assumes c: "0 < c" and bound: "int (length x) + int c - 1 \<le> INT_MAX"
  shows "split_vector_chunks x (int c) = Inr (map Some (spec_chunks c x))"
proof -
  define n where "n = length x"
  define num where "num = (n + c - 1) div c"
  have "int n \<le> INT_MAX"
    using bound c by (simp add: n_def)
  then have n: "wrap32 (int n) = int n"
    by (rule wrap32_nat)
  define m where "m = n + c - 1"
  have m: "int n + int c - 1 = int m"
    using c by (simp add: m_def of_nat_diff)
  have "wrap32 (int m) = int m"
    using bound by (intro wrap32_nat) (simp add: m [symmetric] n_def)
  then have "sub32 (add32 (int n) (int c)) 1 = int m"
    by (simp add: sub32_def add32_def wrap32_wrap32_diff m)
  moreover have "div32 (int m) (int c) = Inr (int num)"
    using c unfolding num_def m_def [symmetric]
    by (simp add: div32_def trunc_div_nonneg zdiv_int)
  ultimately have quot: "div32 (sub32 (add32 (int n) (int c)) 1) (int c) = Inr (int num)"
    by (simp only:)
  have alloc: "new_list (int num) = Inr (replicate num None)"
    by (simp add: new_list_def)
  have "fill_vector_chunks x (int (length x)) (int c) (int num) (int 0) (replicate num None)
      = Inr (take 0 (replicate num None)
             @ map (\<lambda>k. Some (take c (drop (k * c) x))) [0..<num])"
    using c bound by (intro fill_vector_chunks_nat) (simp_all add: num_def n_def)
  then have "fill_vector_chunks x (int n) (int c) (int num) 0 (replicate num None)
      = Inr (map Some (spec_chunks c x))"
    by (simp add: spec_chunks_def comp_def num_def n_def)
  then show ?thesis
    by (simp add: split_vector_chunks_def n_def [symmetric] n quot alloc and_then_def)
qed

lemma concat_spec_chunks: "0 < c \<Longrightarrow> concat (spec_chunks c x) = x"
proof -
  assume c: "0 < c"
  have "length x \<le> ((length x + c - 1) div c) * c"
  proof -
    have "length x + c - 1 < ((length x + c - 1) div c) * c + c"
      using c by (metis add.commute dividend_less_div_times)
    then show ?thesis using c by simp
  qed
  then show ?thesis
    by (simp add: spec_chunks_def concat_chunks_take)
qed

lemma length_spec_chunks: "length (spec_chunks c x) = (length x + c - 1) div c"
  by (simp add: spec_chunks_def)

lemma length_chunk_not_last:
  assumes "0 < c" and "Suc k < length (spec_chunks c x)"
  shows "length (spec_chunks c x ! k) = c"
proof -
  from assms have "Suc k < (length x + c - 1) div c"
    by (simp add: spec_chunks_def)
  with assms(1) have "Suc k * c < length x"
    by (rule chunk_start_in_range)
  moreover from assms have "spec_chunks c x ! k = take c (drop (k * c) x)"
    by (simp add: spec_chunks_def)
  ultimately show ?thesis
    by simp
qed

text \<open>The rounding-up division of the source is the ceiling of the quotient.\<close>

lemma ceiling_as_div:
  fixes n c :: nat
  assumes "0 < c"
  shows "int ((n + c - 1) div c) = \<lceil>real n / real c\<rceil>"
proof -
  define q where "q = (n + c - 1) div c"
  have lo: "q * c \<le> n + c - 1"
    by (simp add: q_def)
  have hi: "n + c - 1 < q * c + c"
    unfolding q_def using assms by (metis add.commute dividend_less_div_times)
  have "n \<le> q * c"
    using hi assms by simp
  then have "real n \<le> real (q * c)"
    by (simp only: of_nat_le_iff)
  then have up: "real n / real c \<le> real_of_int (int q)"
    using assms by (simp add: divide_le_eq)
  have "q * c < n + c"
    using lo assms by simp
  then have "real (q * c) < real (n + c)"
    by (simp only: of_nat_less_iff)
  then have "real q * real c - real c < real n"
    by simp
  then have "(real q - 1) * real c < real n"
    by (simp add: algebra_simps)
  then have low: "real_of_int (int q) - 1 < real n / real c"
    using assms by (simp add: less_divide_eq)
  from low up have "\<lceil>real n / real c\<rceil> = int q"
    by (rule ceiling_unique)
  then show ?thesis
    by (simp add: q_def)
qed

text \<open>
  Where \<open>n + chunk_size - 1\<close> fits an \<open>int\<close>, a positive \<open>chunk_size\<close> gives the
  partition of the specification: the chunks concatenate to \<open>x\<close>, there are
  \<open>ceil (n / chunk_size)\<close> of them, and every chunk but the last has \<open>chunk_size\<close>
  elements.
\<close>

lemma split_vector_chunks_partition:
  assumes "1 \<le> chunk_size" and "int (length x) + chunk_size - 1 \<le> INT_MAX"
  shows "\<exists>chunks. split_vector_chunks x chunk_size = Inr (map Some chunks)
           \<and> concat chunks = x
           \<and> int (length chunks) = \<lceil>real (length x) / real_of_int chunk_size\<rceil>
           \<and> (\<forall>k. Suc k < length chunks \<longrightarrow> int (length (chunks ! k)) = chunk_size)"
proof -
  define c where "c = nat chunk_size"
  have c: "0 < c" and cs: "chunk_size = int c"
    using assms(1) by (simp_all add: c_def)
  have "split_vector_chunks x (int c) = Inr (map Some (spec_chunks c x))"
    using c assms(2) unfolding cs by (rule split_vector_chunks_nat)
  moreover have "concat (spec_chunks c x) = x"
    using c by (rule concat_spec_chunks)
  moreover have "int (length (spec_chunks c x)) = \<lceil>real (length x) / real_of_int (int c)\<rceil>"
    using ceiling_as_div [OF c, of "length x"] by (simp add: length_spec_chunks)
  moreover have "\<forall>k. Suc k < length (spec_chunks c x)
      \<longrightarrow> int (length (spec_chunks c x ! k)) = int c"
    using c by (simp add: length_chunk_not_last)
  ultimately show ?thesis
    unfolding cs by blast
qed

text \<open>The scenario of the specification: five elements in chunks of two.\<close>

lemma split_vector_chunks_scenario:
  "split_vector_chunks [1, 2, 3, 4, 5] 2 = Inr [Some [1, 2], Some [3, 4], Some [5]]"
  by code_simp

text \<open>
  Claim C2 at \<open>x = [1, 2, 3, 4, 5]\<close> and \<open>chunk_size = 2147483647\<close>: the sum
  \<open>n + chunk_size - 1 = 2147483651\<close> does not fit an \<open>int\<close> and wraps to
  \<open>-2147483645\<close>, the chunk count becomes \<open>-2147483645 / 2147483647 = 0\<close>, and the
  chunker returns no chunk at all, so that the five elements are lost.
\<close>

theorem vector_partition_lost_on_overflow:
  "split_vector_chunks [1, 2, 3, 4, 5] 2147483647 = Inr []"
  by code_simp

text \<open>
  Claim C3 at \<open>x = [1, 2, 3, 4]\<close> and \<open>chunk_size = 2147483647\<close>: the specified
  number of chunks is \<open>ceil (4 / 2147483647) = 1\<close>, and the chunker returns none,
  through the same overflow of \<open>n + chunk_size - 1\<close>.
\<close>

theorem vector_chunk_count_wrong_on_overflow:
  "split_vector_chunks [1, 2, 3, 4] 2147483647 = Inr []
   \<and> \<lceil>real (length [1, 2, 3, 4 :: real]) / real_of_int 2147483647\<rceil> = 1"
  by code_simp

section \<open>Properties of the matrix chunker\<close>

text \<open>Column-major offsets: they stay inside the storage and determine row and column.\<close>

lemma offset_in_range:
  fixes i j R C :: nat
  assumes "i < R" and "j < C"
  shows "i + R * j < R * C"
proof -
  have "i + R * j < R + R * j"
    using assms(1) by simp
  also have "\<dots> = R * Suc j"
    by simp
  also have "\<dots> \<le> R * C"
    using assms(2) by (intro mult_le_mono2) simp
  finally show ?thesis .
qed

lemma offset_eq_iff:
  fixes k r l c :: nat
  assumes "r < l"
  shows "k = r + l * c \<longleftrightarrow> k mod l = r \<and> k div l = c"
proof
  assume "k = r + l * c"
  with assms show "k mod l = r \<and> k div l = c"
    by simp
next
  assume "k mod l = r \<and> k div l = c"
  then have "k mod l + l * (k div l) = r + l * c"
    by simp
  then show "k = r + l * c"
    by simp
qed

lemma index_div_less:
  fixes k l C :: nat
  assumes "k < l * C"
  shows "k div l < C"
  using assms by (simp add: less_mult_imp_div_less mult.commute)

text \<open>
  The loop over the columns, entered at column \<open>c\<close> of row \<open>r\<close>, overwrites the
  cells of that row from column \<open>c\<close> on and leaves every other cell as it was.
\<close>

lemma copy_columns_nat:
  assumes mat: "nrow mat = int R" "length (cells mat) = R * C" "int R \<le> INT_MAX"
    and r: "r < l" and s: "s + l \<le> R"
  shows "nrow chunk = int l \<Longrightarrow> length (cells chunk) = l * C \<Longrightarrow> c \<le> C \<Longrightarrow>
         copy_columns mat (int s) (int C) (int r) (int c) chunk
           = Inr (chunk\<lparr>cells :=
                    map (\<lambda>k. if k mod l = r \<and> c \<le> k div l
                             then cells mat ! (s + r + R * (k div l))
                             else cells chunk ! k) [0..<l * C]\<rparr>)"
proof (induction "C - c" arbitrary: c chunk)
  case 0
  then have c: "c = C" by simp
  have "map (\<lambda>k. if k mod l = r \<and> c \<le> k div l
                  then cells mat ! (s + r + R * (k div l))
                  else cells chunk ! k) [0..<l * C]
      = map (\<lambda>k. cells chunk ! k) [0..<l * C]"
  proof (intro map_cong refl)
    fix k assume "k \<in> set [0..<l * C]"
    then have "k div l < C"
      by (simp add: index_div_less)
    then show "(if k mod l = r \<and> c \<le> k div l
                then cells mat ! (s + r + R * (k div l)) else cells chunk ! k) = cells chunk ! k"
      by (simp add: c)
  qed
  also have "\<dots> = cells chunk"
    using map_nth [of "cells chunk"] 0 by simp
  finally show ?case
    using c by (subst copy_columns.simps) simp
next
  case (Suc d)
  then have c: "c < C" by simp
  define v where "v = cells mat ! (s + r + R * c)"
  define chunk' where "chunk' = chunk\<lparr>cells := (cells chunk)[r + l * c := v]\<rparr>"
  have sr: "s + r < R"
    using r s by simp
  then have "wrap32 (int (s + r)) = int (s + r)"
    using mat(3) by (intro wrap32_nat) simp
  then have row: "add32 (int s) (int r) = int (s + r)"
    by (simp add: add32_def)
  have "s + r + R * c < R * C"
    using sr c by (rule offset_in_range)
  then have "read_at (cells mat) (int (s + r + R * c)) = Inr v"
    using mat(2) by (simp add: read_at_def v_def del: of_nat_add of_nat_mult)
  moreover have "int (s + r) + int R * int c = int (s + r + R * c)"
    by simp
  ultimately have rd: "matrix_read mat (int (s + r)) (int c) = Inr v"
    by (simp only: matrix_read_def mat(1))
  have "r + l * c < l * C"
    using r c by (rule offset_in_range)
  then have "write_at (cells chunk) (int (r + l * c)) v = Inr ((cells chunk)[r + l * c := v])"
    using Suc.prems(2) by (simp add: write_at_def del: of_nat_add of_nat_mult)
  moreover have "int r + int l * int c = int (r + l * c)"
    by simp
  ultimately have wr: "matrix_write chunk (int r) (int c) v = Inr chunk'"
    by (simp only: matrix_write_def Suc.prems(1) and_then_def sum.case chunk'_def)
  have step: "copy_columns mat (int s) (int C) (int r) (int c) chunk
      = copy_columns mat (int s) (int C) (int r) (int c + 1) chunk'"
    using c by (subst copy_columns.simps) (simp add: row rd wr and_then_def del: of_nat_add)
  have suc: "int c + 1 = int (Suc c)"
    by simp
  have ih: "copy_columns mat (int s) (int C) (int r) (int (Suc c)) chunk'
      = Inr (chunk'\<lparr>cells :=
               map (\<lambda>k. if k mod l = r \<and> Suc c \<le> k div l
                        then cells mat ! (s + r + R * (k div l))
                        else cells chunk' ! k) [0..<l * C]\<rparr>)"
    using Suc.hyps(2) Suc.prems c by (intro Suc.hyps(1)) (simp_all add: chunk'_def)
  have "map (\<lambda>k. if k mod l = r \<and> Suc c \<le> k div l
                  then cells mat ! (s + r + R * (k div l))
                  else cells chunk' ! k) [0..<l * C]
      = map (\<lambda>k. if k mod l = r \<and> c \<le> k div l
                  then cells mat ! (s + r + R * (k div l))
                  else cells chunk ! k) [0..<l * C]"
  proof (intro map_cong refl)
    fix k assume "k \<in> set [0..<l * C]"
    then have k: "k < length (cells chunk)"
      using Suc.prems(2) by simp
    have "cells chunk' ! k = (if k = r + l * c then v else cells chunk ! k)"
      using k by (simp add: chunk'_def nth_list_update)
    also have "\<dots> = (if k mod l = r \<and> k div l = c then v else cells chunk ! k)"
      using offset_eq_iff [OF r, of k c] by simp
    finally show "(if k mod l = r \<and> Suc c \<le> k div l
                   then cells mat ! (s + r + R * (k div l)) else cells chunk' ! k)
               = (if k mod l = r \<and> c \<le> k div l
                   then cells mat ! (s + r + R * (k div l)) else cells chunk ! k)"
      by (auto simp: v_def)
  qed
  then show ?case
    unfolding step suc ih by (simp add: chunk'_def)
qed

text \<open>The loop over the rows, entered at row \<open>r\<close>, overwrites the rows from \<open>r\<close> on.\<close>

lemma copy_rows_nat:
  assumes mat: "nrow mat = int R" "length (cells mat) = R * C" "int R \<le> INT_MAX"
    and s: "s + l \<le> R"
  shows "nrow chunk = int l \<Longrightarrow> length (cells chunk) = l * C \<Longrightarrow> r \<le> l \<Longrightarrow>
         copy_rows mat (int s) (int l) (int C) (int r) chunk
           = Inr (chunk\<lparr>cells :=
                    map (\<lambda>k. if r \<le> k mod l
                             then cells mat ! (s + k mod l + R * (k div l))
                             else cells chunk ! k) [0..<l * C]\<rparr>)"
proof (induction "l - r" arbitrary: r chunk)
  case 0
  then have r: "r = l" by simp
  have "map (\<lambda>k. if r \<le> k mod l
                  then cells mat ! (s + k mod l + R * (k div l))
                  else cells chunk ! k) [0..<l * C]
      = map (\<lambda>k. cells chunk ! k) [0..<l * C]"
  proof (intro map_cong refl)
    fix k assume "k \<in> set [0..<l * C]"
    then have "0 < l"
      by (cases l) simp_all
    then have "k mod l < l"
      by simp
    then show "(if r \<le> k mod l
                then cells mat ! (s + k mod l + R * (k div l)) else cells chunk ! k)
              = cells chunk ! k"
      by (simp add: r)
  qed
  also have "\<dots> = cells chunk"
    using map_nth [of "cells chunk"] 0 by simp
  finally show ?case
    using r by (subst copy_rows.simps) simp
next
  case (Suc d)
  then have r: "r < l" by simp
  define chunk' where "chunk' = chunk\<lparr>cells :=
      map (\<lambda>k. if k mod l = r \<and> 0 \<le> k div l
               then cells mat ! (s + r + R * (k div l))
               else cells chunk ! k) [0..<l * C]\<rparr>"
  have "copy_columns mat (int s) (int C) (int r) (int 0) chunk = Inr chunk'"
    unfolding chunk'_def using mat r s Suc.prems(1,2)
    by (intro copy_columns_nat) simp_all
  then have row: "copy_columns mat (int s) (int C) (int r) 0 chunk = Inr chunk'"
    by simp
  have step: "copy_rows mat (int s) (int l) (int C) (int r) chunk
      = copy_rows mat (int s) (int l) (int C) (int r + 1) chunk'"
    using r by (subst copy_rows.simps) (simp add: row and_then_def)
  have suc: "int r + 1 = int (Suc r)"
    by simp
  have ih: "copy_rows mat (int s) (int l) (int C) (int (Suc r)) chunk'
      = Inr (chunk'\<lparr>cells :=
               map (\<lambda>k. if Suc r \<le> k mod l
                        then cells mat ! (s + k mod l + R * (k div l))
                        else cells chunk' ! k) [0..<l * C]\<rparr>)"
    using Suc.hyps(2) Suc.prems r by (intro Suc.hyps(1)) (simp_all add: chunk'_def)
  have "map (\<lambda>k. if Suc r \<le> k mod l
                  then cells mat ! (s + k mod l + R * (k div l))
                  else cells chunk' ! k) [0..<l * C]
      = map (\<lambda>k. if r \<le> k mod l
                  then cells mat ! (s + k mod l + R * (k div l))
                  else cells chunk ! k) [0..<l * C]"
  proof (intro map_cong refl)
    fix k assume "k \<in> set [0..<l * C]"
    then have "cells chunk' ! k
        = (if k mod l = r then cells mat ! (s + r + R * (k div l)) else cells chunk ! k)"
      by (simp add: chunk'_def)
    then show "(if Suc r \<le> k mod l
                then cells mat ! (s + k mod l + R * (k div l)) else cells chunk' ! k)
              = (if r \<le> k mod l
                then cells mat ! (s + k mod l + R * (k div l)) else cells chunk ! k)"
      by (cases "k mod l = r") auto
  qed
  then show ?case
    unfolding step suc ih by (simp add: chunk'_def)
qed

lemma copy_rows_row_block:
  assumes mat: "nrow mat = int R" "ncol mat = int C" "length (cells mat) = R * C"
    "int R \<le> INT_MAX"
    and s: "s + l \<le> R"
  shows "copy_rows mat (int s) (int l) (int C) 0
           \<lparr>nrow = int l, ncol = int C, cells = replicate (nat (int l * int C)) 0\<rparr>
         = Inr (row_block mat s l)"
proof -
  let ?chunk0 = "\<lparr>nrow = int l, ncol = int C, cells = replicate (l * C) 0\<rparr>"
  have "copy_rows mat (int s) (int l) (int C) (int 0) ?chunk0
      = Inr (?chunk0\<lparr>cells :=
               map (\<lambda>k. if 0 \<le> k mod l
                        then cells mat ! (s + k mod l + R * (k div l))
                        else cells ?chunk0 ! k) [0..<l * C]\<rparr>)"
    using mat(1,3,4) s by (intro copy_rows_nat) simp_all
  moreover have "nat (int l * int C) = l * C"
    by (simp add: nat_mult_distrib)
  ultimately show ?thesis
    by (simp add: row_block_def mat(1,2))
qed

text \<open>The loop over the chunks stores the row blocks of the reference partition.\<close>

lemma fill_matrix_chunks_nat:
  assumes mat: "nrow mat = int R" "ncol mat = int C" "length (cells mat) = R * C"
    and c: "0 < c" and bound: "int R + int c - 1 \<le> INT_MAX"
    and num: "num = (R + c - 1) div c"
  shows "length result = num \<Longrightarrow> i \<le> num \<Longrightarrow>
         fill_matrix_chunks mat (int R) (int C) (int c) (int num) (int i) result
           = Inr (take i result
                  @ map (\<lambda>k. Some (row_block mat (k * c) (min c (R - k * c)))) [i..<num])"
proof (induction "num - i" arbitrary: i result)
  case 0
  then show ?case
    by (subst fill_matrix_chunks.simps) simp
next
  case (Suc d)
  then have i: "i < num" by simp
  define s where "s = i * c"
  define l where "l = min c (R - s)"
  define chunk where "chunk = row_block mat s l"
  have s: "s < R"
    using c num i by (simp add: s_def chunk_start_in_range)
  have s_int: "int i * int c = int s"
    by (simp add: s_def)
  have R_max: "int R \<le> INT_MAX"
    using bound c by simp
  have "wrap32 (int s) = int s"
    using s R_max by (intro wrap32_nat) simp
  then have start: "mul32 (int i) (int c) = int s"
    by (simp add: mul32_def s_int)
  have "wrap32 (int (s + c)) = int (s + c)"
    using s bound by (intro wrap32_nat) simp
  then have sum: "add32 (int s) (int c) = int (s + c)"
    by (simp add: add32_def)
  have "wrap32 (int l) = int l"
    using R_max by (intro wrap32_nat) (simp add: l_def)
  moreover have "min (int (s + c)) (int R) - int s = int l"
    using s unfolding l_def min_def by (auto simp: of_nat_diff)
  ultimately have len: "sub32 (min (int (s + c)) (int R)) (int s) = int l"
    by (simp add: sub32_def)
  have alloc: "new_numeric_matrix (int l) (int C)
      = Inr \<lparr>nrow = int l, ncol = int C, cells = replicate (nat (int l * int C)) 0\<rparr>"
    by (simp add: new_numeric_matrix_def)
  have "s + l \<le> R"
    using s by (simp add: l_def)
  then have copy: "copy_rows mat (int s) (int l) (int C) 0
      \<lparr>nrow = int l, ncol = int C, cells = replicate (nat (int l * int C)) 0\<rparr> = Inr chunk"
    unfolding chunk_def using mat R_max by (intro copy_rows_row_block) simp_all
  have store: "write_at result (int i) (Some chunk) = Inr (result[i := Some chunk])"
    using i Suc.prems by (simp add: write_at_def)
  have step: "fill_matrix_chunks mat (int R) (int C) (int c) (int num) (int i) result
      = fill_matrix_chunks mat (int R) (int C) (int c) (int num) (int i + 1)
          (result[i := Some chunk])"
    using i
    by (subst fill_matrix_chunks.simps)
      (simp add: start sum len alloc copy store and_then_def Let_def
        del: of_nat_add of_nat_mult)
  have suc: "int i + 1 = int (Suc i)"
    by simp
  have ih: "fill_matrix_chunks mat (int R) (int C) (int c) (int num) (int (Suc i))
          (result[i := Some chunk])
      = Inr (take (Suc i) (result[i := Some chunk])
             @ map (\<lambda>k. Some (row_block mat (k * c) (min c (R - k * c)))) [Suc i..<num])"
    using Suc.hyps Suc.prems i by (intro Suc.hyps(1)) simp_all
  have t1: "take (Suc i) (result[i := Some chunk]) = take i result @ [Some chunk]"
    using i Suc.prems by (simp add: take_Suc_conv_app_nth)
  have t2: "[i..<num] = i # [Suc i..<num]"
    using i by (simp add: upt_conv_Cons)
  show ?case
    unfolding step suc ih t1 t2 by (simp add: chunk_def l_def s_def)
qed

lemma split_matrix_chunks_nat:
  assumes mat: "nrow mat = int R" "ncol mat = int C" "length (cells mat) = R * C"
    and c: "0 < c" and bound: "int R + int c - 1 \<le> INT_MAX"
  shows "split_matrix_chunks mat (int c) = Inr (map Some (spec_row_blocks c mat))"
proof -
  define num where "num = (R + c - 1) div c"
  define m where "m = R + c - 1"
  have m: "int R + int c - 1 = int m"
    using c by (simp add: m_def of_nat_diff)
  have "wrap32 (int m) = int m"
    using bound by (intro wrap32_nat) (simp add: m [symmetric])
  then have "sub32 (add32 (int R) (int c)) 1 = int m"
    by (simp add: sub32_def add32_def wrap32_wrap32_diff m)
  moreover have "div32 (int m) (int c) = Inr (int num)"
    using c unfolding num_def m_def [symmetric]
    by (simp add: div32_def trunc_div_nonneg zdiv_int)
  ultimately have quot: "div32 (sub32 (add32 (int R) (int c)) 1) (int c) = Inr (int num)"
    by (simp only:)
  have alloc: "new_list (int num) = Inr (replicate num None)"
    by (simp add: new_list_def)
  have "fill_matrix_chunks mat (int R) (int C) (int c) (int num) (int 0) (replicate num None)
      = Inr (take 0 (replicate num None)
             @ map (\<lambda>k. Some (row_block mat (k * c) (min c (R - k * c)))) [0..<num])"
    using mat c bound by (intro fill_matrix_chunks_nat) (simp_all add: num_def)
  then have "fill_matrix_chunks mat (int R) (int C) (int c) (int num) 0 (replicate num None)
      = Inr (map Some (spec_row_blocks c mat))"
    by (simp add: spec_row_blocks_def comp_def num_def mat(1))
  then show ?thesis
    by (simp add: split_matrix_chunks_def mat(1,2) quot alloc and_then_def)
qed

text \<open>The rows of a row block are the corresponding rows of the matrix.\<close>

lemma matrix_rows_row_block:
  assumes "nrow mat = int R" and "s + l \<le> R"
  shows "matrix_rows (row_block mat s l) = take l (drop s (matrix_rows mat))"
proof -
  define C where "C = nat (ncol mat)"
  have "take l (drop s (matrix_rows mat))
      = map (\<lambda>i. map (\<lambda>j. cells mat ! (i + R * j)) [0..<C]) [s..<s + l]"
    using assms by (simp add: matrix_rows_def C_def take_map drop_map take_upt drop_upt)
  also have "[s..<s + l] = map (\<lambda>i. i + s) [0..<l]"
    by (simp add: map_add_upt add.commute)
  also have "map (\<lambda>i. map (\<lambda>j. cells mat ! (i + R * j)) [0..<C]) (map (\<lambda>i. i + s) [0..<l])
      = map (\<lambda>i. map (\<lambda>j. cells mat ! (s + i + R * j)) [0..<C]) [0..<l]"
    by (simp add: comp_def add.commute)
  also have "\<dots> = matrix_rows (row_block mat s l)"
  proof -
    have dims: "nat (nrow (row_block mat s l)) = l" "nat (ncol (row_block mat s l)) = C"
      by (simp_all add: row_block_def C_def)
    have "cells (row_block mat s l) ! (i + l * j) = cells mat ! (s + i + R * j)"
      if "i < l" and "j < C" for i j
    proof -
      have "i + l * j < l * C"
        using that by (rule offset_in_range)
      then show ?thesis
        using that(1) assms(1) by (simp add: row_block_def C_def)
    qed
    then show ?thesis
      by (simp add: matrix_rows_def dims)
  qed
  finally show ?thesis
    by simp
qed

lemma matrix_rows_spec_row_blocks:
  assumes "nrow mat = int R" and "0 < c"
  shows "map matrix_rows (spec_row_blocks c mat) = spec_chunks c (matrix_rows mat)"
proof -
  have len: "length (matrix_rows mat) = R"
    using assms(1) by (simp add: matrix_rows_def)
  have "matrix_rows (row_block mat (k * c) (min c (R - k * c)))
      = take c (drop (k * c) (matrix_rows mat))"
    if "k < (R + c - 1) div c" for k
  proof -
    have "k * c < R"
      using assms(2) that by (rule chunk_start_in_range)
    then have "k * c + min c (R - k * c) \<le> R"
      by simp
    with assms(1)
    have "matrix_rows (row_block mat (k * c) (min c (R - k * c)))
        = take (min c (R - k * c)) (drop (k * c) (matrix_rows mat))"
      by (rule matrix_rows_row_block)
    also have "\<dots> = take c (drop (k * c) (matrix_rows mat))"
      using take_min_length [of c "drop (k * c) (matrix_rows mat)"] by (simp add: len)
    finally show ?thesis .
  qed
  then show ?thesis
    by (simp add: spec_row_blocks_def spec_chunks_def assms(1) len)
qed

text \<open>
  Where \<open>nrows + chunk_size - 1\<close> fits an \<open>int\<close>, a positive \<open>chunk_size\<close> gives
  chunks with the column count of \<open>mat\<close> whose rows, stacked in order, are the rows of
  \<open>mat\<close>.
\<close>

lemma split_matrix_chunks_partition:
  assumes "0 \<le> nrow mat" and "0 \<le> ncol mat"
    and "length (cells mat) = nat (nrow mat) * nat (ncol mat)"
    and "1 \<le> chunk_size" and "nrow mat + chunk_size - 1 \<le> INT_MAX"
  shows "\<exists>chunks. split_matrix_chunks mat chunk_size = Inr (map Some chunks)
           \<and> (\<forall>m \<in> set chunks. ncol m = ncol mat)
           \<and> concat (map matrix_rows chunks) = matrix_rows mat"
proof -
  define R where "R = nat (nrow mat)"
  define C where "C = nat (ncol mat)"
  define c where "c = nat chunk_size"
  have R: "nrow mat = int R" and C: "ncol mat = int C"
    using assms(1,2) by (simp_all add: R_def C_def)
  have c: "0 < c" and cs: "chunk_size = int c"
    using assms(4) by (simp_all add: c_def)
  have "length (cells mat) = R * C"
    using assms(3) by (simp add: R_def C_def)
  moreover have "int R + int c - 1 \<le> INT_MAX"
    using assms(5) by (simp add: R cs)
  ultimately have "split_matrix_chunks mat (int c) = Inr (map Some (spec_row_blocks c mat))"
    using R C c by (intro split_matrix_chunks_nat)
  moreover have "\<forall>m \<in> set (spec_row_blocks c mat). ncol m = ncol mat"
    by (auto simp: spec_row_blocks_def row_block_def)
  moreover have "concat (map matrix_rows (spec_row_blocks c mat)) = matrix_rows mat"
    using c by (simp add: matrix_rows_spec_row_blocks [OF R] concat_spec_chunks)
  ultimately show ?thesis
    unfolding cs by blast
qed

text \<open>
  Claim C4 at a matrix of 4 rows and 2 columns and \<open>chunk_size = 2147483647\<close>: the sum
  \<open>nrows + chunk_size - 1\<close> wraps around as in the vector chunker, the chunk count
  becomes 0, and no row is returned.
\<close>

theorem matrix_partition_lost_on_overflow:
  "split_matrix_chunks \<lparr>nrow = 4, ncol = 2, cells = [1, 2, 3, 4, 5, 6, 7, 8]\<rparr> 2147483647
     = Inr []"
  by code_simp

section \<open>Chunk sizes that are not positive\<close>

text \<open>
  With a negative \<open>chunk_size\<close> the chunk count is computed without a trap. If it is
  positive, the first chunk is requested with the negative extent \<open>chunk_size\<close>.
\<close>

lemma num_chunks_nonpositive:
  assumes "chunk_size < 0" and "INT_MIN \<le> chunk_size" and "0 \<le> n" and "n \<le> INT_MAX"
  shows "div32 (sub32 (add32 n chunk_size) 1) chunk_size
           = Inr (trunc_div (wrap32 (n + chunk_size - 1)) chunk_size)"
proof -
  have a: "sub32 (add32 n chunk_size) 1 = wrap32 (n + chunk_size - 1)"
    by (simp add: sub32_def add32_def wrap32_wrap32_diff)
  have "wrap32 (n + chunk_size - 1) \<noteq> INT_MIN" if "chunk_size = - 1"
  proof -
    have "wrap32 (n - 2) = n - 2"
      using assms(3,4) by (intro wrap32_id) (simp_all add: INT_MIN_def INT_MAX_def)
    then show ?thesis
      using that assms(3) by (simp add: INT_MIN_def)
  qed
  then show ?thesis
    using assms(1) by (auto simp: a div32_def)
qed

lemma fill_vector_chunks_negative_size:
  assumes "chunk_size < 0" and "INT_MIN \<le> chunk_size" and "0 \<le> n" and "0 < num_chunks"
  shows "fill_vector_chunks x n chunk_size num_chunks 0 result = Inl NegativeLength"
proof -
  have "wrap32 chunk_size = chunk_size"
    using assms(1,2) by (intro wrap32_id) (simp_all add: INT_MAX_def)
  then show ?thesis
    using assms
    by (subst fill_vector_chunks.simps)
      (simp add: mul32_def add32_def sub32_def wrap32_def [of 0] min_def
        new_numeric_vector_def and_then_def)
qed

lemma split_vector_chunks_nonpositive:
  assumes "INT_MIN \<le> chunk_size" and "chunk_size \<le> 0" and "int (length x) \<le> INT_MAX"
  shows "split_vector_chunks x chunk_size =
           (if chunk_size = 0 then Inl DivisionByZero
            else if trunc_div (wrap32 (int (length x) + chunk_size - 1)) chunk_size = 0
            then Inr []
            else Inl NegativeLength)"
proof (cases "chunk_size = 0")
  case True
  then show ?thesis
    by (simp add: split_vector_chunks_def div32_def and_then_def)
next
  case False
  with assms have neg: "chunk_size < 0" by simp
  define n where "n = int (length x)"
  define q where "q = trunc_div (wrap32 (n + chunk_size - 1)) chunk_size"
  have n: "wrap32 (int (length x)) = n"
    unfolding n_def using assms(3) by (rule wrap32_nat)
  have quot: "div32 (sub32 (add32 n chunk_size) 1) chunk_size = Inr q"
    unfolding q_def using neg assms(1) assms(3)
    by (intro num_chunks_nonpositive) (simp_all add: n_def)
  have run: "split_vector_chunks x chunk_size
      = and_then (new_list q) (\<lambda>result. fill_vector_chunks x n chunk_size q 0 result)"
    by (simp add: split_vector_chunks_def n quot and_then_def)
  consider "q = 0" | "q < 0" | "0 < q" by linarith
  then have "split_vector_chunks x chunk_size = (if q = 0 then Inr [] else Inl NegativeLength)"
  proof cases
    case 1
    have "fill_vector_chunks x n chunk_size 0 0 [] = Inr []"
      by (subst fill_vector_chunks.simps) simp
    with 1 show ?thesis
      unfolding run by (simp add: new_list_def and_then_def)
  next
    case 2
    then show ?thesis
      unfolding run by (simp add: new_list_def and_then_def)
  next
    case 3
    then have "fill_vector_chunks x n chunk_size q 0 result = Inl NegativeLength" for result
      using neg assms(1) by (intro fill_vector_chunks_negative_size) (simp_all add: n_def)
    with 3 show ?thesis
      unfolding run by (simp add: new_list_def and_then_def)
  qed
  then show ?thesis
    using False by (simp add: q_def n_def)
qed

lemma fill_matrix_chunks_negative_size:
  assumes "chunk_size < 0" and "INT_MIN \<le> chunk_size" and "0 \<le> nrows" and "0 < num_chunks"
  shows "fill_matrix_chunks mat nrows ncols chunk_size num_chunks 0 result = Inl NegativeLength"
proof -
  have "wrap32 chunk_size = chunk_size"
    using assms(1,2) by (intro wrap32_id) (simp_all add: INT_MAX_def)
  then show ?thesis
    using assms
    by (subst fill_matrix_chunks.simps)
      (simp add: mul32_def add32_def sub32_def wrap32_def [of 0] min_def
        new_numeric_matrix_def and_then_def)
qed

lemma split_matrix_chunks_nonpositive:
  assumes "INT_MIN \<le> chunk_size" and "chunk_size \<le> 0"
    and "0 \<le> nrow mat" and "nrow mat \<le> INT_MAX"
  shows "split_matrix_chunks mat chunk_size =
           (if chunk_size = 0 then Inl DivisionByZero
            else if trunc_div (wrap32 (nrow mat + chunk_size - 1)) chunk_size = 0
            then Inr []
            else Inl NegativeLength)"
proof (cases "chunk_size = 0")
  case True
  then show ?thesis
    by (simp add: split_matrix_chunks_def div32_def and_then_def)
next
  case False
  with assms have neg: "chunk_size < 0" by simp
  define q where "q = trunc_div (wrap32 (nrow mat + chunk_size - 1)) chunk_size"
  have quot: "div32 (sub32 (add32 (nrow mat) chunk_size) 1) chunk_size = Inr q"
    unfolding q_def using neg assms(1,3,4) by (rule num_chunks_nonpositive)
  have run: "split_matrix_chunks mat chunk_size
      = and_then (new_list q)
          (\<lambda>result. fill_matrix_chunks mat (nrow mat) (ncol mat) chunk_size q 0 result)"
    by (simp add: split_matrix_chunks_def quot and_then_def)
  consider "q = 0" | "q < 0" | "0 < q" by linarith
  then have "split_matrix_chunks mat chunk_size = (if q = 0 then Inr [] else Inl NegativeLength)"
  proof cases
    case 1
    have "fill_matrix_chunks mat (nrow mat) (ncol mat) chunk_size 0 0 [] = Inr []"
      by (subst fill_matrix_chunks.simps) simp
    with 1 show ?thesis
      unfolding run by (simp add: new_list_def and_then_def)
  next
    case 2
    then show ?thesis
      unfolding run by (simp add: new_list_def and_then_def)
  next
    case 3
    then have "fill_matrix_chunks mat (nrow mat) (ncol mat) chunk_size q 0 result
        = Inl NegativeLength" for result
      using neg assms(1,3) by (intro fill_matrix_chunks_negative_size)
    with 3 show ?thesis
      unfolding run by (simp add: new_list_def and_then_def)
  qed
  then show ?thesis
    using False by (simp add: q_def)
qed

text \<open>
  Claim C6, as stated, at \<open>chunk_size = -10\<close>: both chunkers return an empty list and
  signal nothing.
\<close>

theorem nonpositive_chunk_size_accepted:
  "split_vector_chunks [1, 2, 3, 4, 5] (- 10) = Inr []
   \<and> split_matrix_chunks \<lparr>nrow = 4, ncol = 2, cells = [1, 2, 3, 4, 5, 6, 7, 8]\<rparr> (- 10) = Inr []"
  by code_simp

text \<open>
  Claim C6, amended: the chunkers do not validate \<open>chunk_size\<close>. For
  \<open>chunk_size \<le> 0\<close> they always come to an end: \<open>chunk_size = 0\<close> ends in an integer
  division by zero; a negative \<open>chunk_size\<close> gives an empty list, without any error,
  when \<open>(n + chunk_size - 1) / chunk_size\<close> truncates to 0, and otherwise ends in the
  allocation of a negative extent.
\<close>

theorem nonpositive_chunk_size_not_rejected:
  assumes "INT_MIN \<le> chunk_size" and "chunk_size \<le> 0"
    and "int (length x) \<le> INT_MAX" and "0 \<le> nrow mat" and "nrow mat \<le> INT_MAX"
  shows "split_vector_chunks x chunk_size =
           (if chunk_size = 0 then Inl DivisionByZero
            else if trunc_div (wrap32 (int (length x) + chunk_size - 1)) chunk_size = 0
            then Inr []
            else Inl NegativeLength)
       \<and> split_matrix_chunks mat chunk_size =
           (if chunk_size = 0 then Inl DivisionByZero
            else if trunc_div (wrap32 (nrow mat + chunk_size - 1)) chunk_size = 0
            then Inr []
            else Inl NegativeLength)"
  using assms split_vector_chunks_nonpositive split_matrix_chunks_nonpositive by simp

theorem nonpositive_chunk_size_not_rejected_witness:
  "split_vector_chunks [7, 8, 9] (- 4) = Inr []
   \<and> split_matrix_chunks \<lparr>nrow = 1, ncol = 2, cells = [1, 2]\<rparr> (- 4) = Inl NegativeLength"
  using nonpositive_chunk_size_not_rejected
    [of "- 4" "[7, 8, 9]" "\<lparr>nrow = 1, ncol = 2, cells = [1, 2]\<rparr>"]
  by (simp add: INT_MIN_def INT_MAX_def trunc_div_def wrap32_def)

end
